theory Spec2Isabelle
  imports Complex_Main "HOL-Library.Multiset"
begin

section \<open>JavaScript values and arrays\<close>

text \<open>
  The component \<^verbatim>\<open>PdfRearranger\<close> (src/PdfRearrange.jsx) keeps its whole state in
  React state variables that hold JavaScript arrays. A slot of such an array is
  \<^verbatim>\<open>undefined\<close> (a hole, or a read past the end), \<^verbatim>\<open>null\<close>, or a proper value.
\<close>

datatype 'a js = JUndefined | JNull | JVal 'a

text \<open>
  A JavaScript number that the component computes with: \<^verbatim>\<open>NaN\<close> or a finite value.
  Rotation angles are whole numbers of degrees far below \<open>2^53\<close>, where double
  arithmetic is exact, so finite angles are integers; the radians handed to the PDF
  library are the idealised real product (see \<open>js_mul\<close>). The sign of zero is not
  tracked (\<^verbatim>\<open>-0 === 0\<close>, and no operation of the component tells them apart).
\<close>

datatype 'a num = NaN | Fin 'a

text \<open>
  \<^verbatim>\<open>arr[k]\<close>: an index inside the array reads the element, an index past the end reads
  \<^verbatim>\<open>undefined\<close>. A key that is \<^verbatim>\<open>null\<close> or \<^verbatim>\<open>undefined\<close> names an ordinary property
  of the array object, not an element; the model tracks elements only and reads such a
  key as \<^verbatim>\<open>undefined\<close>. All theorems about reads are stated for index keys.
\<close>

fun js_get :: "'a js list \<Rightarrow> nat js \<Rightarrow> 'a js" where
  "js_get arr (JVal n) = (if n < length arr then arr ! n else JUndefined)"
| "js_get arr JNull = JUndefined"
| "js_get arr JUndefined = JUndefined"

text \<open>
  \<^verbatim>\<open>arr[k] = v\<close>: an index inside the array overwrites the element; an index at or
  past the end extends the array, the slots in between being holes (read as
  \<^verbatim>\<open>undefined\<close>). A key that is not an index leaves every element as it was.
\<close>

fun js_set :: "'a js list \<Rightarrow> nat js \<Rightarrow> 'a js \<Rightarrow> 'a js list" where
  "js_set arr (JVal n) v =
     (if n < length arr then arr[n := v]
      else arr @ replicate (n - length arr) JUndefined @ [v])"
| "js_set arr JNull v = arr"
| "js_set arr JUndefined v = arr"

text \<open>
  \<^verbatim>\<open>arr.splice(start, deleteCount, ...items)\<close> for a non-negative \<open>start\<close>: removes
  \<open>deleteCount\<close> elements from \<open>start\<close> (fewer when the array ends first), inserts
  \<open>items\<close> there, and returns the removed elements. A \<open>start\<close> past the end is
  clamped to the length. The pair is (array afterwards, removed elements).
\<close>

definition splice :: "'a list \<Rightarrow> nat \<Rightarrow> nat \<Rightarrow> 'a list \<Rightarrow> 'a list \<times> 'a list" where
  "splice arr start deleteCount items =
     (take start arr @ items @ drop (start + deleteCount) arr,
      take deleteCount (drop start arr))"

text \<open>\<^verbatim>\<open>const [removed] = xs\<close>: the first element, \<^verbatim>\<open>undefined\<close> when there is none.\<close>

fun js_first :: "'a js list \<Rightarrow> 'a js" where
  "js_first [] = JUndefined"
| "js_first (x # _) = x"

text \<open>Truthiness of a slot that holds an image URL: the empty string is falsy.\<close>

fun truthy :: "string js \<Rightarrow> bool" where
  "truthy (JVal u) = (u \<noteq> [])"
| "truthy JNull = False"
| "truthy JUndefined = False"

definition js_or :: "string js \<Rightarrow> string js \<Rightarrow> string js" where
  "js_or a b = (if truthy a then a else b)"

text \<open>
  The integers that a double holds exactly and on which its arithmetic is exact
  (\<^verbatim>\<open>Number.isSafeInteger\<close>): those below \<open>2^53\<close> in magnitude.
\<close>

definition safe_integer :: "int \<Rightarrow> bool" where
  "safe_integer x = (\<bar>x\<bar> < 2 ^ 53)"

text \<open>
  \<^verbatim>\<open>x + angle\<close> for a slot \<open>x\<close> of the rotation array and a number \<open>angle\<close>:
  \<^verbatim>\<open>undefined\<close> converts to \<^verbatim>\<open>NaN\<close>, \<^verbatim>\<open>null\<close> to 0. The sum of two finite numbers
  is the exact integer sum, which is what the double addition of line 109 gives as long
  as both operands and the sum are safe integers; beyond \<open>2^53\<close> the double sum is
  rounded and this function does not describe it. The angles the component stores are
  0 or a result of \<^verbatim>\<open>% 360\<close>, and its buttons add 90 or -90; a statement about an
  arbitrary \<open>angle\<close> carries the bound as a hypothesis.
\<close>

fun js_add :: "int num js \<Rightarrow> int \<Rightarrow> int num" where
  "js_add (JVal (Fin a)) angle = Fin (a + angle)"
| "js_add (JVal NaN) angle = NaN"
| "js_add JNull angle = Fin angle"
| "js_add JUndefined angle = NaN"

text \<open>
  The remainder operator \<^verbatim>\<open>%\<close> truncates towards zero: the result has the sign of
  the dividend. A zero divisor gives \<^verbatim>\<open>NaN\<close>.
\<close>

definition trunc_rem :: "int \<Rightarrow> int \<Rightarrow> int" where
  "trunc_rem a m = sgn a * (\<bar>a\<bar> mod \<bar>m\<bar>)"

fun js_rem :: "int num \<Rightarrow> int \<Rightarrow> int num" where
  "js_rem (Fin a) m = (if m = 0 then NaN else Fin (trunc_rem a m))"
| "js_rem NaN m = NaN"

text \<open>
  \<^verbatim>\<open>x * r\<close> for a slot \<open>x\<close> of the rotation array and a finite factor \<open>r\<close>; the
  double product is idealised as the real product.
\<close>

fun js_mul :: "int num js \<Rightarrow> real \<Rightarrow> real num" where
  "js_mul (JVal (Fin a)) r = Fin (real_of_int a * r)"
| "js_mul (JVal NaN) r = NaN"
| "js_mul JNull r = Fin 0"
| "js_mul JUndefined r = NaN"

section \<open>Component state\<close>

text \<open>
  A document that pdf-lib has loaded. The component reads two things from it: what
  \<^verbatim>\<open>getPageCount()\<close> returns (line 25), \<open>None\<close> when that call throws, and that it is
  an object, hence truthy (lines 60, 144).
\<close>

datatype pdfdoc = PDFDocument (getPageCount: "nat option")

text \<open>
  The state variables of lines 9-15. \<open>pdfDoc\<close> is \<^verbatim>\<open>null\<close> (\<open>None\<close>) or the loaded
  document.
\<close>

record state =
  pdfDoc :: "pdfdoc option"
  pages :: "nat js list"
  pageImages :: "string js list"
  selectedPage :: "nat js"
  rotationAngles :: "int num js list"
  croppedImages :: "string js list"
  zoomLevel :: real

definition initial :: state where
  "initial = \<lparr>pdfDoc = None, pages = [], pageImages = [], selectedPage = JNull,
               rotationAngles = [], croppedImages = [], zoomLevel = 1\<rparr>"

text \<open>Line 166: clicking a page entry selects its identifier.\<close>

definition setSelectedPage :: "state \<Rightarrow> nat js \<Rightarrow> state" where
  "setSelectedPage s pageIndex = s\<lparr>selectedPage := pageIndex\<rparr>"

section \<open>Rotation (lines 105-111)\<close>

definition rotateSelectedPage :: "state \<Rightarrow> int \<Rightarrow> state" where
  "rotateSelectedPage s angle =
     (if selectedPage s = JNull then s
      else s\<lparr>rotationAngles :=
               js_set (rotationAngles s) (selectedPage s)
                 (JVal (js_rem (js_add (js_get (rotationAngles s) (selectedPage s)) angle) 360))\<rparr>)"

section \<open>Collaborators\<close>

text \<open>
  The libraries the component calls are not part of the repository; they are taken as
  parameters. A call that rejects or throws returns \<open>None\<close>.
\<close>

type_synonym bytes = "nat list"

text \<open>The handle returned by \<^verbatim>\<open>embedPng\<close>: the component reads its width and height.\<close>

record image =
  img_width :: nat
  img_height :: nat
  img_data :: bytes

text \<open>
  A value given as the \<^verbatim>\<open>rotate\<close> option of \<^verbatim>\<open>drawImage\<close>: a plain number, which is
  what line 79 computes, or one of pdf-lib's rotation objects, which its functions
  \<^verbatim>\<open>radians(x)\<close> and \<^verbatim>\<open>degrees(x)\<close> make.
\<close>

datatype rotate_option = Number "real num" | Radians real | Degrees real

text \<open>The options object passed to \<^verbatim>\<open>page.drawImage\<close> (lines 74-80).\<close>

record draw =
  d_image :: image
  d_x :: nat
  d_y :: nat
  d_width :: nat
  d_height :: nat
  d_rotate :: rotate_option

text \<open>
  A page of the document under construction: the size given to \<^verbatim>\<open>addPage\<close> and the
  images drawn on it, in order.
\<close>

record out_page =
  p_width :: nat
  p_height :: nat
  p_draws :: "draw list"

record collab =
  pdflib_load :: "bytes \<Rightarrow> pdfdoc option"
    \<comment> \<open>\<^verbatim>\<open>file.arrayBuffer()\<close>, \<^verbatim>\<open>PDFDocument.load\<close>: the parsed document\<close>
  pdfjs_getDocument :: "bytes \<Rightarrow> (nat \<Rightarrow> string option) option"
    \<comment> \<open>\<^verbatim>\<open>pdfjsLib.getDocument\<close>: the document, as the function that renders page
        number \<open>i\<close> (\<^verbatim>\<open>getPage\<close>, \<^verbatim>\<open>getViewport\<close>, \<^verbatim>\<open>render\<close>, \<^verbatim>\<open>toDataURL\<close>) to a data URL\<close>
  fetch_bytes :: "string js \<Rightarrow> bytes option"
    \<comment> \<open>\<^verbatim>\<open>fetch(imageUrl).then(res => res.arrayBuffer())\<close>\<close>
  embedPng :: "bytes \<Rightarrow> image option"
  drawImage :: "draw \<Rightarrow> unit option"
    \<comment> \<open>\<^verbatim>\<open>page.drawImage(image, options)\<close> on the page just added: the library checks
        the options and throws on those it does not accept\<close>
  save :: "out_page list \<Rightarrow> bytes option"
    \<comment> \<open>\<^verbatim>\<open>newPdfDoc.save()\<close>: the serialised document\<close>
  getCroppedCanvas :: "string js \<Rightarrow> string option"
    \<comment> \<open>\<^verbatim>\<open>cropper.getCroppedCanvas().toDataURL()\<close> of the cropper showing the given
        source image, with the crop box the user has drawn\<close>

text \<open>The three \<^verbatim>\<open>console.error\<close> messages (lines 31, 55, 93).\<close>

datatype log_entry = Error_loading_PDF | Error_rendering_PDF_pages | Error_creating_PDF

datatype js_error = TypeError

section \<open>Loading (lines 18-57)\<close>

text \<open>
  The loop of lines 41-51: pages \<open>i, ..., pageCount\<close> are rendered one after the other
  and their data URLs pushed onto \<open>images\<close>; a page that cannot be rendered throws.
\<close>

function render_loop :: "(nat \<Rightarrow> string option) \<Rightarrow> nat \<Rightarrow> nat \<Rightarrow> string js list \<Rightarrow> string js list option" where
  "render_loop pdf i pageCount images =
     (if i \<le> pageCount then
        (case pdf i of
           None \<Rightarrow> None
         | Some url \<Rightarrow> render_loop pdf (Suc i) pageCount (images @ [JVal url]))
      else Some images)"
  by pat_completeness auto
termination
  by (relation "measure (\<lambda>(pdf, i, pageCount, images). Suc pageCount - i)") auto

declare render_loop.simps [simp del]

text \<open>
  \<open>renderPdfPages\<close> catches every error itself (line 54) and logs it; the images are
  stored only after the whole loop (line 53).
\<close>

definition renderPdfPages :: "collab \<Rightarrow> state \<Rightarrow> bytes \<Rightarrow> nat \<Rightarrow> state \<times> log_entry list" where
  "renderPdfPages env s arrayBuffer pageCount =
     (case pdfjs_getDocument env arrayBuffer of
        None \<Rightarrow> (s, [Error_rendering_PDF_pages])
      | Some pdf \<Rightarrow>
          (case render_loop pdf 1 pageCount [] of
             None \<Rightarrow> (s, [Error_rendering_PDF_pages])
           | Some images \<Rightarrow> (s\<lparr>pageImages := images\<rparr>, [])))"

text \<open>
  \<open>handleFileUpload\<close>: no file chosen returns at once (line 20); a file that pdf-lib
  cannot load is caught and logged before any setter runs (lines 23, 30-31); a
  document whose page count cannot be read throws at line 25, after \<^verbatim>\<open>setPdfDoc\<close>
  (line 24) and before the other setters, into the same handler.
\<close>

definition handleFileUpload :: "collab \<Rightarrow> state \<Rightarrow> bytes option \<Rightarrow> state \<times> log_entry list" where
  "handleFileUpload env s file =
     (case file of
        None \<Rightarrow> (s, [])
      | Some arrayBuffer \<Rightarrow>
          (case pdflib_load env arrayBuffer of
             None \<Rightarrow> (s, [Error_loading_PDF])
           | Some doc \<Rightarrow>
               (case getPageCount doc of
                  None \<Rightarrow> (s\<lparr>pdfDoc := Some doc\<rparr>, [Error_loading_PDF])
                | Some pageCount \<Rightarrow>
                    renderPdfPages env
                      (s\<lparr>pdfDoc := Some doc,
                         pages := map JVal [0..<pageCount],
                         rotationAngles := replicate pageCount (JVal (Fin 0)),
                         croppedImages := replicate pageCount JNull\<rparr>)
                      arrayBuffer pageCount)))"

section \<open>Export (lines 59-95)\<close>

text \<open>Line 66: the crop override when it is truthy, otherwise the rendered image.\<close>

definition imageUrl :: "state \<Rightarrow> nat js \<Rightarrow> string js" where
  "imageUrl s pageIndex =
     js_or (js_get (croppedImages s) pageIndex) (js_get (pageImages s) pageIndex)"

text \<open>
  Lines 67-70: the image fetched and embedded for a page identifier; \<open>None\<close> when the
  fetch or the embedding throws, that is, when the raster cannot be read.
\<close>

definition embedded :: "collab \<Rightarrow> state \<Rightarrow> nat js \<Rightarrow> image option" where
  "embedded env s pageIndex =
     (case fetch_bytes env (imageUrl s pageIndex) of
        None \<Rightarrow> None
      | Some imageBytes \<Rightarrow> embedPng env imageBytes)"

text \<open>Lines 74-80: the options given to \<^verbatim>\<open>drawImage\<close> for an embedded image.\<close>

definition draw_options :: "state \<Rightarrow> nat js \<Rightarrow> image \<Rightarrow> draw" where
  "draw_options s pageIndex img =
     \<lparr>d_image = img, d_x = 0, d_y = 0,
      d_width = img_width img, d_height = img_height img,
      d_rotate = Number (js_mul (js_get (rotationAngles s) pageIndex) (pi / 180))\<rparr>"

text \<open>Line 73 and the drawing: the page added for an embedded image, once drawn.\<close>

definition new_page :: "state \<Rightarrow> nat js \<Rightarrow> image \<Rightarrow> out_page" where
  "new_page s pageIndex img =
     \<lparr>p_width = img_width img, p_height = img_height img,
      p_draws = [draw_options s pageIndex img]\<rparr>"

text \<open>
  The loop of lines 64-81 from position \<open>i\<close> on, \<open>doc\<close> being the pages added so far.
  A fetch, an embedding or a drawing that throws leaves the loop (to the handler of
  line 92).
\<close>

function export_loop :: "collab \<Rightarrow> state \<Rightarrow> nat \<Rightarrow> out_page list \<Rightarrow> out_page list option" where
  "export_loop env s i doc =
     (if i < length (pages s) then
        (let pageIndex = pages s ! i in
         case fetch_bytes env (imageUrl s pageIndex) of
           None \<Rightarrow> None
         | Some imageBytes \<Rightarrow>
             (case embedPng env imageBytes of
                None \<Rightarrow> None
              | Some img \<Rightarrow>
                  (case drawImage env (draw_options s pageIndex img) of
                     None \<Rightarrow> None
                   | Some _ \<Rightarrow>
                       export_loop env s (Suc i) (doc @ [new_page s pageIndex img]))))
      else Some doc)"
  by pat_completeness auto
termination
  by (relation "measure (\<lambda>(env, s, i, doc). length (pages s) - i)") auto

declare export_loop.simps [simp del]

text \<open>
  The body of the loop for one page identifier: the page it adds, \<open>None\<close> when the
  fetch, the embedding or the drawing throws.
\<close>

definition exported_page :: "collab \<Rightarrow> state \<Rightarrow> nat js \<Rightarrow> out_page option" where
  "exported_page env s pageIndex =
     (case embedded env s pageIndex of
        None \<Rightarrow> None
      | Some img \<Rightarrow>
          (case drawImage env (draw_options s pageIndex img) of
             None \<Rightarrow> None
           | Some _ \<Rightarrow> Some (new_page s pageIndex img)))"

text \<open>
  What the export does to the outside: the file offered for download (its name and
  bytes, lines 83-91), if any, and what is logged.
\<close>

record effect =
  download :: "(string \<times> bytes) option"
  logged :: "log_entry list"

definition handleRearrange :: "collab \<Rightarrow> state \<Rightarrow> effect" where
  "handleRearrange env s =
     (case pdfDoc s of
        None \<Rightarrow> \<lparr>download = None, logged = []\<rparr>
      | Some _ \<Rightarrow>
          (case export_loop env s 0 [] of
             None \<Rightarrow> \<lparr>download = None, logged = [Error_creating_PDF]\<rparr>
           | Some doc \<Rightarrow>
               (case save env doc of
                  None \<Rightarrow> \<lparr>download = None, logged = [Error_creating_PDF]\<rparr>
                | Some pdfBytes \<Rightarrow>
                    \<lparr>download = Some (''rearranged.pdf'', pdfBytes), logged = []\<rparr>)))"

section \<open>Reordering (lines 97-103)\<close>

text \<open>
  \<open>source\<close> is \<^verbatim>\<open>result.source.index\<close>, \<open>destination\<close> is
  \<^verbatim>\<open>result.destination\<close> (\<open>None\<close> when the drop had no target) with its index.
\<close>

definition onDragEnd :: "state \<Rightarrow> nat \<Rightarrow> nat option \<Rightarrow> state" where
  "onDragEnd s source destination =
     (case destination of
        None \<Rightarrow> s
      | Some dest \<Rightarrow>
          (let (reorderedPages, removedList) = splice (pages s) source 1 [];
               removed = js_first removedList
           in s\<lparr>pages := fst (splice reorderedPages dest 0 [removed])\<rparr>))"

section \<open>Cropping (lines 113-124, 184-233)\<close>

text \<open>
  Lines 184-234: the block that holds the cropper and the buttons "Rotate 90",
  "Rotate -90", "Crop", "Zoom In" and "Zoom Out" is rendered exactly while
  \<^verbatim>\<open>selectedPage !== null\<close>.
\<close>

definition editor_rendered :: "state \<Rightarrow> bool" where
  "editor_rendered s = (selectedPage s \<noteq> JNull)"

text \<open>Line 187: the image the cropper shows.\<close>

definition cropper_src :: "state \<Rightarrow> string js" where
  "cropper_src s = js_get (pageImages s) (selectedPage s)"

text \<open>
  \<^verbatim>\<open>cropperRef.current\<close>: the \<^verbatim>\<open>null\<close> of line 16 (\<open>None\<close>) until the cropper is
  mounted, then the mounted cropper (line 191), here the image it shows. The selection,
  once made, never returns to \<^verbatim>\<open>null\<close> (line 166 is the only call of
  \<^verbatim>\<open>setSelectedPage\<close>), so the cropper is mounted exactly when the block is rendered.
\<close>

definition cropperRef_current :: "state \<Rightarrow> string js option" where
  "cropperRef_current s = (if editor_rendered s then Some (cropper_src s) else None)"

text \<open>
  \<open>handleCrop\<close>, lines 113-124. It has no guard of its own: line 114 reads
  \<^verbatim>\<open>cropperRef.current.cropper\<close> and throws a TypeError when the ref is \<^verbatim>\<open>null\<close>; a
  cropper that has no canvas to give throws at line 115. Both come before the setters
  of lines 118 and 123.
\<close>

definition handleCrop :: "collab \<Rightarrow> state \<Rightarrow> js_error + state" where
  "handleCrop env s =
     (case cropperRef_current s of
        None \<Rightarrow> Inl TypeError
      | Some src \<Rightarrow>
          (case getCroppedCanvas env src of
             None \<Rightarrow> Inl TypeError
           | Some croppedDataUrl \<Rightarrow>
               Inr (s\<lparr>croppedImages :=
                        js_set (croppedImages s) (selectedPage s) (JVal croppedDataUrl),
                      pageImages :=
                        js_set (pageImages s) (selectedPage s) (JVal croppedDataUrl)\<rparr>)))"




text \<open>
  The state after an event handler has run: a handler that throws before its first
  setter leaves the state as it was.
\<close>

definition state_after :: "state \<Rightarrow> js_error + state \<Rightarrow> state" where
  "state_after s r = (case r of Inl _ \<Rightarrow> s | Inr s' \<Rightarrow> s')"

section \<open>A sample session\<close>

text \<open>
  Concrete collaborators for evaluating the handlers: a file is read from its first
  byte (the page count); pdf.js also fails on any file of more than one byte; page \<open>i\<close>
  renders to a URL of \<open>i\<close> characters; an image is as wide as it has bytes; cropping
  prefixes the source URL with a character. This \<^verbatim>\<open>drawImage\<close> draws with whatever
  options it is given.
\<close>

definition sample_collab :: collab where
  "sample_collab =
     \<lparr>pdflib_load = (\<lambda>b. case b of [] \<Rightarrow> None | n # _ \<Rightarrow> Some (PDFDocument (Some n))),
      pdfjs_getDocument =
        (\<lambda>b. case b of
               [] \<Rightarrow> None
             | n # rest \<Rightarrow> if rest = [] then Some (\<lambda>i. Some (replicate i CHR ''p'')) else None),
      fetch_bytes = (\<lambda>u. case u of JVal x \<Rightarrow> Some (map of_char x) | _ \<Rightarrow> None),
      embedPng =
        (\<lambda>b. if b = [] then None
              else Some \<lparr>img_width = length b, img_height = 2 * length b, img_data = b\<rparr>),
      drawImage = (\<lambda>d. Some ()),
      save = (\<lambda>doc. Some (map p_width doc)),
      getCroppedCanvas = (\<lambda>src. case src of JVal x \<Rightarrow> Some (CHR ''c'' # x) | _ \<Rightarrow> None)\<rparr>"

text \<open>
  The same collaborators with \<^verbatim>\<open>drawImage\<close> as pdf-lib has it: it asserts that the
  \<^verbatim>\<open>rotate\<close> option, when given, is a rotation object, and throws a TypeError on a
  plain number.
\<close>

definition pdflib_collab :: collab where
  "pdflib_collab =
     sample_collab\<lparr>drawImage := (\<lambda>d. case d_rotate d of Number x \<Rightarrow> None | _ \<Rightarrow> Some ())\<rparr>"

text \<open>The state after loading a two-page file into the fresh component.\<close>

definition two_pages :: state where
  "two_pages = fst (handleFileUpload sample_collab initial (Some [2]))"

text \<open>The same with page 0 selected, and then rotated by -90 degrees.\<close>

definition page0_selected :: state where
  "page0_selected = setSelectedPage two_pages (JVal 0)"

definition page0_turned_back :: state where
  "page0_turned_back = rotateSelectedPage page0_selected (- 90)"

text \<open>The state after loading a three-page file into the fresh component.\<close>

definition three_pages :: state where
  "three_pages = fst (handleFileUpload sample_collab initial (Some [3]))"

text \<open>
  The three-page document after selecting page 2, pressing "Rotate 90" and cropping.
\<close>

definition page2_edited :: state where
  "page2_edited =
     state_after (rotateSelectedPage (setSelectedPage three_pages (JVal 2)) 90)
       (handleCrop sample_collab (rotateSelectedPage (setSelectedPage three_pages (JVal 2)) 90))"

text \<open>
  The fresh component after a file that pdf-lib loads (two pages) and pdf.js cannot
  parse: the document is set, no page has a raster.
\<close>

definition unrendered :: state where
  "unrendered = fst (handleFileUpload sample_collab initial (Some [2, 0]))"

text \<open>
  The three-page document after moving the last page to the front, selecting page 0,
  pressing "Rotate 90" and cropping.
\<close>

definition scenario :: state where
  "scenario =
     state_after
       (rotateSelectedPage (setSelectedPage (onDragEnd three_pages 2 (Some 0)) (JVal 0)) 90)
       (handleCrop sample_collab
          (rotateSelectedPage (setSelectedPage (onDragEnd three_pages 2 (Some 0)) (JVal 0)) 90))"

section \<open>Arrays: reads after writes\<close>

lemma js_get_set_same: "js_get (js_set arr (JVal p) v) (JVal p) = v"
  by (simp add: nth_append)

lemma js_get_set_other:
  "q \<noteq> p \<Longrightarrow> js_get (js_set arr (JVal p) v) (JVal q) = js_get arr (JVal q)"
  by (auto simp: nth_append nth_replicate)

lemma js_set_overwrite: "js_set (js_set arr k x) k v = js_set arr k v"
  by (cases k) (auto simp: list_update_append)

lemma js_set_length_inside:
  "js_get arr (JVal p) = JVal x \<Longrightarrow> length (js_set arr (JVal p) v) = length arr"
  by (simp split: if_splits)

section \<open>The remainder operator\<close>

lemma trunc_rem_nonneg: "0 \<le> a \<Longrightarrow> trunc_rem a 360 = a mod 360"
  by (cases "a = 0") (simp_all add: trunc_rem_def)

lemma trunc_rem_neg: "a < 0 \<Longrightarrow> trunc_rem a 360 = - ((- a) mod 360)"
  by (simp add: trunc_rem_def)

lemma trunc_rem_cong: "trunc_rem a 360 mod 360 = a mod 360"
proof (cases "0 \<le> a")
  case True
  then show ?thesis by (simp add: trunc_rem_nonneg)
next
  case False
  then have "trunc_rem a 360 = - ((- a) mod 360)" by (simp add: trunc_rem_neg)
  then show ?thesis by (simp add: mod_minus_eq)
qed

lemma trunc_rem_range: "- 360 < trunc_rem a 360 \<and> trunc_rem a 360 < 360"
proof (cases "0 \<le> a")
  case True
  then show ?thesis by (simp add: trunc_rem_nonneg)
next
  case False
  then have "trunc_rem a 360 = - ((- a) mod 360)" by (simp add: trunc_rem_neg)
  moreover have "0 \<le> (- a) mod 360" "(- a) mod 360 < 360" by simp_all
  ultimately show ?thesis by linarith
qed

lemma trunc_rem_lower: "min a 0 \<le> trunc_rem a 360"
proof (cases "0 \<le> a")
  case True
  then show ?thesis by (simp add: trunc_rem_nonneg)
next
  case False
  then have "trunc_rem a 360 = - ((- a) mod 360)" by (simp add: trunc_rem_neg)
  moreover have "(- a) mod 360 \<le> - a"
    using False by (intro zmod_le_nonneg_dividend) simp
  ultimately show ?thesis using False by simp
qed

section \<open>The sample session, evaluated\<close>

lemma two_pages_eq:
  "two_pages =
     \<lparr>pdfDoc = Some (PDFDocument (Some 2)), pages = [JVal 0, JVal 1], pageImages = [JVal ''p'', JVal ''pp''],
      selectedPage = JNull, rotationAngles = [JVal (Fin 0), JVal (Fin 0)],
      croppedImages = [JNull, JNull], zoomLevel = 1\<rparr>"
  by (simp add: two_pages_def handleFileUpload_def sample_collab_def initial_def
      renderPdfPages_def render_loop.simps upt_rec_numeral numeral_2_eq_2)

section \<open>Rotation\<close>

lemma rotate_read_selected:
  assumes "selectedPage s = JVal p" and "js_get (rotationAngles s) (JVal p) = JVal (Fin a)"
  shows "js_get (rotationAngles (rotateSelectedPage s d)) (JVal p)
         = JVal (Fin (trunc_rem (a + d) 360))"
  using assms unfolding rotateSelectedPage_def
  by (simp add: js_get_set_same del: js_get.simps js_set.simps)

lemma rotate_read_other:
  "q \<noteq> p \<Longrightarrow> selectedPage s = JVal p \<Longrightarrow>
   js_get (rotationAngles (rotateSelectedPage s d)) (JVal q) = js_get (rotationAngles s) (JVal q)"
  unfolding rotateSelectedPage_def
  by (simp add: js_get_set_other del: js_get.simps js_set.simps)

lemma rotate_keeps_selection: "selectedPage (rotateSelectedPage s d) = selectedPage s"
  by (simp add: rotateSelectedPage_def)

lemma page0_selected_eq:
  "page0_selected =
     \<lparr>pdfDoc = Some (PDFDocument (Some 2)), pages = [JVal 0, JVal 1], pageImages = [JVal ''p'', JVal ''pp''],
      selectedPage = JVal 0, rotationAngles = [JVal (Fin 0), JVal (Fin 0)],
      croppedImages = [JNull, JNull], zoomLevel = 1\<rparr>"
  by (simp add: page0_selected_def setSelectedPage_def two_pages_eq)

lemma page0_turned_back_eq:
  "page0_turned_back =
     \<lparr>pdfDoc = Some (PDFDocument (Some 2)), pages = [JVal 0, JVal 1], pageImages = [JVal ''p'', JVal ''pp''],
      selectedPage = JVal 0, rotationAngles = [JVal (Fin (- 90)), JVal (Fin 0)],
      croppedImages = [JNull, JNull], zoomLevel = 1\<rparr>"
  by (simp add: page0_turned_back_def rotateSelectedPage_def page0_selected_eq trunc_rem_def)

text \<open>
  C5 (as amended). For a selected page \<open>p\<close> with stored angle \<open>a\<close> and any integer
  \<open>delta\<close> such that \<open>a\<close>, \<open>delta\<close> and \<open>a + delta\<close> are safe integers (below \<open>2^53\<close> in
  magnitude, where the double addition is exact), \<open>rotateSelectedPage\<close> stores for \<open>p\<close>
  the remainder of \<open>a + delta\<close> by 360 as \<^verbatim>\<open>%\<close> computes it: truncated towards zero, so \<open>(a + delta) mod 360\<close> when
  \<open>a + delta\<close> is not negative and \<open>- ((- (a + delta)) mod 360)\<close> when it is, in both
  cases congruent to \<open>a + delta\<close> modulo 360. The array keeps its length and no other
  page's angle changes. With no page selected the state is returned as it is.
\<close>

theorem rotateSelectedPage_angle:
  assumes "selectedPage s = JVal p"
    and "js_get (rotationAngles s) (JVal p) = JVal (Fin a)"
    and "selectedPage t = JNull"
    and "safe_integer a" and "safe_integer delta" and "safe_integer (a + delta)"
  shows "js_get (rotationAngles (rotateSelectedPage s delta)) (JVal p)
           = JVal (Fin (trunc_rem (a + delta) 360))
       \<and> trunc_rem (a + delta) 360
           = (if 0 \<le> a + delta then (a + delta) mod 360 else - ((- (a + delta)) mod 360))
       \<and> trunc_rem (a + delta) 360 mod 360 = (a + delta) mod 360
       \<and> length (rotationAngles (rotateSelectedPage s delta)) = length (rotationAngles s)
       \<and> (\<forall>q. q \<noteq> p \<longrightarrow>
             js_get (rotationAngles (rotateSelectedPage s delta)) (JVal q)
               = js_get (rotationAngles s) (JVal q))
       \<and> rotateSelectedPage t delta = t"
proof (intro conjI allI impI)
  show "js_get (rotationAngles (rotateSelectedPage s delta)) (JVal p)
          = JVal (Fin (trunc_rem (a + delta) 360))"
    by (rule rotate_read_selected [OF assms(1,2)])
  show "trunc_rem (a + delta) 360
          = (if 0 \<le> a + delta then (a + delta) mod 360 else - ((- (a + delta)) mod 360))"
    by (simp add: trunc_rem_nonneg trunc_rem_neg)
  show "trunc_rem (a + delta) 360 mod 360 = (a + delta) mod 360"
    by (rule trunc_rem_cong)
  show "length (rotationAngles (rotateSelectedPage s delta)) = length (rotationAngles s)"
    using assms(1,2) unfolding rotateSelectedPage_def
    by (simp add: js_set_length_inside del: js_get.simps js_set.simps)
  show "js_get (rotationAngles (rotateSelectedPage s delta)) (JVal q)
          = js_get (rotationAngles s) (JVal q)" if "q \<noteq> p" for q
    by (rule rotate_read_other [OF that assms(1)])
  show "rotateSelectedPage t delta = t"
    using assms(3) by (simp add: rotateSelectedPage_def)
qed

theorem rotateSelectedPage_angle_witness:
  "selectedPage page0_selected = JVal 0
   \<and> js_get (rotationAngles page0_selected) (JVal 0) = JVal (Fin 0)
   \<and> selectedPage two_pages = JNull
   \<and> safe_integer 0 \<and> safe_integer (- 90) \<and> safe_integer (0 + (- 90))
   \<and> js_get (rotationAngles (rotateSelectedPage page0_selected (- 90))) (JVal 0) = JVal (Fin (- 90))
   \<and> trunc_rem (0 + (- 90)) 360 mod 360 = (270 :: int)
   \<and> length (rotationAngles (rotateSelectedPage page0_selected (- 90))) = 2
   \<and> js_get (rotationAngles (rotateSelectedPage page0_selected (- 90))) (JVal 1) = JVal (Fin 0)
   \<and> rotateSelectedPage two_pages (- 90) = two_pages"
proof -
  have h1: "selectedPage page0_selected = JVal 0" by (simp add: page0_selected_eq)
  have h2: "js_get (rotationAngles page0_selected) (JVal 0) = JVal (Fin 0)"
    by (simp add: page0_selected_eq)
  have h3: "selectedPage two_pages = JNull" by (simp add: two_pages_eq)
  have r: "trunc_rem (0 + (- 90)) 360 = - 90" by (simp add: trunc_rem_def)
  have l: "length (rotationAngles page0_selected) = 2" by (simp add: page0_selected_eq)
  have o: "js_get (rotationAngles page0_selected) (JVal 1) = JVal (Fin 0)"
    by (simp add: page0_selected_eq)
  have b1: "safe_integer 0" and b2: "safe_integer (- 90)" and b3: "safe_integer (0 + (- 90))"
    by (simp_all add: safe_integer_def)
  from rotateSelectedPage_angle [OF h1 h2 h3 b1 b2 b3] h1 h2 h3 b1 b2 b3 r l o
  show ?thesis by (simp del: js_get.simps)
qed

text \<open>
  C5 as stated fails: from the loaded two-page document with page 0 selected (angle 0),
  the button "Rotate -90" stores -90, not \<open>(0 + (- 90)) mod 360 = 270\<close>.
\<close>

theorem rotate_floor_mod_counterexample:
  "selectedPage page0_selected = JVal 0
   \<and> js_get (rotationAngles page0_selected) (JVal 0) = JVal (Fin 0)
   \<and> js_get (rotationAngles (rotateSelectedPage page0_selected (- 90))) (JVal 0) = JVal (Fin (- 90))
   \<and> js_get (rotationAngles (rotateSelectedPage page0_selected (- 90))) (JVal 0)
       \<noteq> JVal (Fin ((0 + (- 90)) mod 360))"
  by (simp add: page0_selected_eq rotateSelectedPage_def trunc_rem_def)

text \<open>
  C9 (as amended). For a selected page \<open>p\<close> with stored angle \<open>a\<close>, four calls of
  \<open>rotateSelectedPage\<close> with 90 leave for \<open>p\<close> an angle congruent to \<open>a\<close> modulo 360.
  For \<open>a > -360\<close>, which holds of every angle the component stores, it is \<open>a mod 360\<close>:
  \<open>a\<close> itself when \<open>0 \<le> a < 360\<close>, and \<open>a + 360\<close> when \<open>-360 < a < 0\<close>.
\<close>

theorem four_quarter_turns:
  assumes "selectedPage s = JVal p"
    and "js_get (rotationAngles s) (JVal p) = JVal (Fin a)"
  shows "\<exists>b. js_get (rotationAngles
                 (rotateSelectedPage (rotateSelectedPage
                    (rotateSelectedPage (rotateSelectedPage s 90) 90) 90) 90)) (JVal p)
               = JVal (Fin b)
           \<and> b mod 360 = a mod 360
           \<and> (- 360 < a \<longrightarrow> b = a mod 360)
           \<and> (0 \<le> a \<and> a < 360 \<longrightarrow> b = a)
           \<and> (- 360 < a \<and> a < 0 \<longrightarrow> b = a + 360)"
proof -
  define r1 where "r1 = trunc_rem (a + 90) 360"
  define r2 where "r2 = trunc_rem (r1 + 90) 360"
  define r3 where "r3 = trunc_rem (r2 + 90) 360"
  define r4 where "r4 = trunc_rem (r3 + 90) 360"
  let ?s1 = "rotateSelectedPage s 90"
  let ?s2 = "rotateSelectedPage ?s1 90"
  let ?s3 = "rotateSelectedPage ?s2 90"
  let ?s4 = "rotateSelectedPage ?s3 90"
  have g1: "js_get (rotationAngles ?s1) (JVal p) = JVal (Fin r1)"
    unfolding r1_def by (rule rotate_read_selected [OF assms])
  have g2: "js_get (rotationAngles ?s2) (JVal p) = JVal (Fin r2)"
    unfolding r2_def by (rule rotate_read_selected [OF _ g1]) (simp add: rotate_keeps_selection assms)
  have g3: "js_get (rotationAngles ?s3) (JVal p) = JVal (Fin r3)"
    unfolding r3_def by (rule rotate_read_selected [OF _ g2]) (simp add: rotate_keeps_selection assms)
  have g4: "js_get (rotationAngles ?s4) (JVal p) = JVal (Fin r4)"
    unfolding r4_def by (rule rotate_read_selected [OF _ g3]) (simp add: rotate_keeps_selection assms)
  have c1: "r1 mod 360 = (a + 90) mod 360" unfolding r1_def by (rule trunc_rem_cong)
  have c2: "r2 mod 360 = (r1 + 90) mod 360" unfolding r2_def by (rule trunc_rem_cong)
  have c3: "r3 mod 360 = (r2 + 90) mod 360" unfolding r3_def by (rule trunc_rem_cong)
  have c4: "r4 mod 360 = (r3 + 90) mod 360" unfolding r4_def by (rule trunc_rem_cong)
  have step: "y mod 360 = (x + 90) mod 360 \<Longrightarrow> x mod 360 = z mod 360 \<Longrightarrow>
      y mod 360 = (z + 90) mod 360" for x y z :: int
    by (metis mod_add_left_eq)
  have d2: "r2 mod 360 = (a + 90 + 90) mod 360" by (rule step [OF c2 c1])
  have d3: "r3 mod 360 = (a + 90 + 90 + 90) mod 360" by (rule step [OF c3 d2])
  have d4: "r4 mod 360 = (a + 90 + 90 + 90 + 90) mod 360" by (rule step [OF c4 d3])
  have cong: "r4 mod 360 = a mod 360"
    using d4 by simp
  have upper: "r4 < 360" unfolding r4_def using trunc_rem_range [of "r3 + 90"] by simp
  have canonical: "r4 = a mod 360" if "- 360 < a"
  proof -
    have "min (a + 90) 0 \<le> r1" unfolding r1_def by (rule trunc_rem_lower)
    then have l1: "- 270 < r1" using that by simp
    have "min (r1 + 90) 0 \<le> r2" unfolding r2_def by (rule trunc_rem_lower)
    then have l2: "- 180 < r2" using l1 by simp
    have "min (r2 + 90) 0 \<le> r3" unfolding r3_def by (rule trunc_rem_lower)
    then have l3: "- 90 < r3" using l2 by simp
    have "min (r3 + 90) 0 \<le> r4" unfolding r4_def by (rule trunc_rem_lower)
    then have l4: "0 \<le> r4" using l3 by simp
    have "r4 = r4 mod 360" using l4 upper by simp
    also have "\<dots> = a mod 360" by (rule cong)
    finally show ?thesis .
  qed
  show ?thesis
  proof (intro exI conjI impI)
    show "js_get (rotationAngles ?s4) (JVal p) = JVal (Fin r4)" by (rule g4)
    show "r4 mod 360 = a mod 360" by (rule cong)
    show "r4 = a mod 360" if "- 360 < a" using that by (rule canonical)
    show "r4 = a" if "0 \<le> a \<and> a < 360"
    proof -
      have "r4 = a mod 360" using that by (intro canonical) simp
      also have "\<dots> = a" using that by simp
      finally show ?thesis .
    qed
    show "r4 = a + 360" if "- 360 < a \<and> a < 0"
    proof -
      have "r4 = a mod 360" using that by (intro canonical) simp
      also have "\<dots> = (a + 360) mod 360" by simp
      also have "\<dots> = a + 360" using that by (intro mod_pos_pos_trivial) simp_all
      finally show ?thesis .
    qed
  qed
qed

theorem four_quarter_turns_witness:
  "selectedPage page0_turned_back = JVal 0
   \<and> js_get (rotationAngles page0_turned_back) (JVal 0) = JVal (Fin (- 90))
   \<and> js_get (rotationAngles
         (rotateSelectedPage (rotateSelectedPage
            (rotateSelectedPage (rotateSelectedPage page0_turned_back 90) 90) 90) 90)) (JVal 0)
       = JVal (Fin 270)
   \<and> selectedPage page0_selected = JVal 0
   \<and> js_get (rotationAngles page0_selected) (JVal 0) = JVal (Fin 0)
   \<and> js_get (rotationAngles
         (rotateSelectedPage (rotateSelectedPage
            (rotateSelectedPage (rotateSelectedPage page0_selected 90) 90) 90) 90)) (JVal 0)
       = JVal (Fin 0)"
proof -
  have h1: "selectedPage page0_turned_back = JVal 0" by (simp add: page0_turned_back_eq)
  have h2: "js_get (rotationAngles page0_turned_back) (JVal 0) = JVal (Fin (- 90))"
    by (simp add: page0_turned_back_eq)
  from four_quarter_turns [OF h1 h2] obtain b where
    g: "js_get (rotationAngles
         (rotateSelectedPage (rotateSelectedPage
            (rotateSelectedPage (rotateSelectedPage page0_turned_back 90) 90) 90) 90)) (JVal 0)
       = JVal (Fin b)"
    and b: "- 360 < (- 90 :: int) \<and> (- 90 :: int) < 0 \<longrightarrow> b = - 90 + 360"
    by blast
  from b have b270: "b = 270" by simp
  have k1: "selectedPage page0_selected = JVal 0" by (simp add: page0_selected_eq)
  have k2: "js_get (rotationAngles page0_selected) (JVal 0) = JVal (Fin 0)"
    by (simp add: page0_selected_eq)
  from four_quarter_turns [OF k1 k2] obtain c where
    f: "js_get (rotationAngles
         (rotateSelectedPage (rotateSelectedPage
            (rotateSelectedPage (rotateSelectedPage page0_selected 90) 90) 90) 90)) (JVal 0)
       = JVal (Fin c)"
    and c0: "c = 0"
    by auto
  from g f b270 c0 h1 h2 k1 k2 show ?thesis by (simp del: js_get.simps)
qed

text \<open>
  C9 as stated fails in a state the buttons reach: load two pages, select page 0, press
  "Rotate -90" (the angle is -90), then "Rotate 90" four times: the angle is 270.
\<close>

theorem four_quarter_turns_counterexample:
  "selectedPage page0_turned_back = JVal 0
   \<and> js_get (rotationAngles page0_turned_back) (JVal 0) = JVal (Fin (- 90))
   \<and> js_get (rotationAngles
         (rotateSelectedPage (rotateSelectedPage
            (rotateSelectedPage (rotateSelectedPage page0_turned_back 90) 90) 90) 90)) (JVal 0)
       \<noteq> js_get (rotationAngles page0_turned_back) (JVal 0)"
  by (simp add: page0_turned_back_eq rotateSelectedPage_def trunc_rem_def)

lemma three_pages_eq:
  "three_pages =
     \<lparr>pdfDoc = Some (PDFDocument (Some 3)), pages = [JVal 0, JVal 1, JVal 2],
      pageImages = [JVal ''p'', JVal ''pp'', JVal ''ppp''],
      selectedPage = JNull, rotationAngles = [JVal (Fin 0), JVal (Fin 0), JVal (Fin 0)],
      croppedImages = [JNull, JNull, JNull], zoomLevel = 1\<rparr>"
  by (simp add: three_pages_def handleFileUpload_def sample_collab_def initial_def
      renderPdfPages_def render_loop.simps upt_rec_numeral numeral_3_eq_3)

section \<open>Reordering\<close>

lemma onDragEnd_pages:
  assumes "source < length (pages s)"
  shows "pages (onDragEnd s source (Some dest)) =
         take dest (take source (pages s) @ drop (Suc source) (pages s)) @ [pages s ! source]
           @ drop dest (take source (pages s) @ drop (Suc source) (pages s))"
proof -
  have "take 1 (drop source (pages s)) = [pages s ! source]"
    using assms by (simp add: take_Suc_conv_app_nth)
  then show ?thesis
    by (simp add: onDragEnd_def splice_def)
qed

lemma removed_nth:
  assumes "i < length xs" "k < length xs - 1"
  shows "(take i xs @ drop (Suc i) xs) ! k = (if k < i then xs ! k else xs ! Suc k)"
  using assms by (simp add: nth_append min_def)

lemma removed_length: "i < length xs \<Longrightarrow> length (take i xs @ drop (Suc i) xs) = length xs - 1"
  by simp

lemma inserted_nth:
  assumes "j \<le> length ys" "k \<le> length ys"
  shows "(take j ys @ [x] @ drop j ys) ! k = (if k < j then ys ! k else if k = j then x else ys ! (k - 1))"
  using assms by (auto simp: nth_append min_def)

lemma moved_nth:
  assumes "i < length xs" "j < length xs" "k < length xs"
  shows "(take j (take i xs @ drop (Suc i) xs) @ [xs ! i] @ drop j (take i xs @ drop (Suc i) xs)) ! k
       = (if k = j then xs ! i
          else if i \<le> k \<and> k < j then xs ! Suc k
          else if j < k \<and> k \<le> i then xs ! (k - 1)
          else xs ! k)"
proof -
  let ?ys = "take i xs @ drop (Suc i) xs"
  have len: "length ?ys = length xs - 1" using assms(1) by (rule removed_length)
  have j: "j \<le> length ?ys" and k: "k \<le> length ?ys" using assms len by simp_all
  have "(take j ?ys @ [xs ! i] @ drop j ?ys) ! k
        = (if k < j then ?ys ! k else if k = j then xs ! i else ?ys ! (k - 1))"
    by (rule inserted_nth [OF j k])
  also have "\<dots> = (if k = j then xs ! i
          else if i \<le> k \<and> k < j then xs ! Suc k
          else if j < k \<and> k \<le> i then xs ! (k - 1)
          else xs ! k)"
  proof (cases "k < j")
    case True
    then have "k < length xs - 1" using assms by simp
    then show ?thesis using True removed_nth [OF assms(1), of k] by auto
  next
    case False
    show ?thesis
    proof (cases "k = j")
      case True
      then show ?thesis by simp
    next
      case ne: False
      with False have gt: "j < k" by simp
      then have "k - 1 < length xs - 1" using assms by simp
      then show ?thesis using gt removed_nth [OF assms(1), of "k - 1"] by auto
    qed
  qed
  finally show ?thesis .
qed

lemma moved_mset:
  assumes "i < length xs"
  shows "mset (take j (take i xs @ drop (Suc i) xs) @ [xs ! i] @ drop j (take i xs @ drop (Suc i) xs)) = mset xs"
proof -
  let ?ys = "take i xs @ drop (Suc i) xs"
  have "mset (take j ?ys @ [xs ! i] @ drop j ?ys) = mset (take j ?ys @ drop j ?ys) + {#xs ! i#}"
    by simp
  also have "\<dots> = mset ?ys + {#xs ! i#}" by (simp only: append_take_drop_id)
  also have "\<dots> = mset (take i xs @ xs ! i # drop (Suc i) xs)" by simp
  also have "\<dots> = mset xs" using assms by (simp only: id_take_nth_drop [symmetric])
  finally show ?thesis .
qed

lemma onDragEnd_other_fields:
  "pdfDoc (onDragEnd s source destination) = pdfDoc s
   \<and> pageImages (onDragEnd s source destination) = pageImages s
   \<and> selectedPage (onDragEnd s source destination) = selectedPage s
   \<and> rotationAngles (onDragEnd s source destination) = rotationAngles s
   \<and> croppedImages (onDragEnd s source destination) = croppedImages s
   \<and> zoomLevel (onDragEnd s source destination) = zoomLevel s"
  by (cases destination) (simp_all add: onDragEnd_def splice_def)

text \<open>
  C4. For positions \<open>source\<close> and \<open>dest\<close> inside the Page List, \<open>onDragEnd\<close> puts the
  entry of position \<open>source\<close> at position \<open>dest\<close> and shifts the entries between the
  two positions by one towards \<open>source\<close>; every other entry stays. The result has the
  same length and the same entries with the same multiplicities (a permutation of
  \<open>[0, n)\<close> stays one), and selection, angles and images are untouched. A drop with no
  destination leaves the state as it is.
\<close>

theorem onDragEnd_moves_entry:
  assumes "source < length (pages s)" and "dest < length (pages s)"
  shows "length (pages (onDragEnd s source (Some dest))) = length (pages s)
       \<and> mset (pages (onDragEnd s source (Some dest))) = mset (pages s)
       \<and> (\<forall>n. mset (pages s) = mset (map JVal [0..<n]) \<longrightarrow>
               mset (pages (onDragEnd s source (Some dest))) = mset (map JVal [0..<n]))
       \<and> (\<forall>k. k < length (pages s) \<longrightarrow>
             pages (onDragEnd s source (Some dest)) ! k
               = (if k = dest then pages s ! source
                  else if source \<le> k \<and> k < dest then pages s ! Suc k
                  else if dest < k \<and> k \<le> source then pages s ! (k - 1)
                  else pages s ! k))
       \<and> selectedPage (onDragEnd s source (Some dest)) = selectedPage s
       \<and> rotationAngles (onDragEnd s source (Some dest)) = rotationAngles s
       \<and> croppedImages (onDragEnd s source (Some dest)) = croppedImages s
       \<and> pageImages (onDragEnd s source (Some dest)) = pageImages s
       \<and> onDragEnd s source None = s"
proof -
  let ?ys = "pages (onDragEnd s source (Some dest))"
  note eq = onDragEnd_pages [OF assms(1), of dest]
  have m: "mset ?ys = mset (pages s)"
    unfolding eq by (rule moved_mset [OF assms(1)])
  have l: "length ?ys = length (pages s)"
    using m by (rule mset_eq_length)
  have n: "?ys ! k
             = (if k = dest then pages s ! source
                else if source \<le> k \<and> k < dest then pages s ! Suc k
                else if dest < k \<and> k \<le> source then pages s ! (k - 1)
                else pages s ! k)" if "k < length (pages s)" for k
    unfolding eq by (rule moved_nth [OF assms that])
  have c: "onDragEnd s source None = s" by (simp add: onDragEnd_def)
  from l m n c onDragEnd_other_fields [of s source "Some dest"] show ?thesis by simp
qed

theorem onDragEnd_moves_entry_witness:
  "(2::nat) < length (pages three_pages) \<and> (0::nat) < length (pages three_pages)
   \<and> pages (onDragEnd three_pages 2 (Some 0)) = [JVal 2, JVal 0, JVal 1]
   \<and> length (pages (onDragEnd three_pages 2 (Some 0))) = length (pages three_pages)
   \<and> mset (pages (onDragEnd three_pages 2 (Some 0))) = mset (pages three_pages)
   \<and> pages (onDragEnd three_pages 2 (Some 0)) ! 1 = pages three_pages ! 0
   \<and> onDragEnd three_pages 2 None = three_pages"
proof -
  have h1: "2 < length (pages three_pages)" by (simp add: three_pages_eq)
  have h2: "0 < length (pages three_pages)" by (simp add: three_pages_eq)
  have e: "pages (onDragEnd three_pages 2 (Some 0)) = [JVal 2, JVal 0, JVal 1]"
    by (simp add: onDragEnd_def splice_def three_pages_eq)
  have k: "(1::nat) < length (pages three_pages)" by (simp add: three_pages_eq)
  from onDragEnd_moves_entry [OF h1 h2]
  have l: "length (pages (onDragEnd three_pages 2 (Some 0))) = length (pages three_pages)"
    and m: "mset (pages (onDragEnd three_pages 2 (Some 0))) = mset (pages three_pages)"
    and n: "\<forall>k. k < length (pages three_pages) \<longrightarrow>
             pages (onDragEnd three_pages 2 (Some 0)) ! k
               = (if k = 0 then pages three_pages ! 2
                  else if 2 \<le> k \<and> k < 0 then pages three_pages ! Suc k
                  else if 0 < k \<and> k \<le> 2 then pages three_pages ! (k - 1)
                  else pages three_pages ! k)"
    and c: "onDragEnd three_pages 2 None = three_pages"
    by blast+
  from n k have n1: "pages (onDragEnd three_pages 2 (Some 0)) ! 1 = pages three_pages ! 0"
    by simp
  from h1 h2 e l m n1 c show ?thesis by simp
qed

lemma page2_edited_eq:
  "page2_edited =
     \<lparr>pdfDoc = Some (PDFDocument (Some 3)), pages = [JVal 0, JVal 1, JVal 2],
      pageImages = [JVal ''p'', JVal ''pp'', JVal ''cppp''],
      selectedPage = JVal 2, rotationAngles = [JVal (Fin 0), JVal (Fin 0), JVal (Fin 90)],
      croppedImages = [JNull, JNull, JVal ''cppp''], zoomLevel = 1\<rparr>"
  by (simp add: page2_edited_def state_after_def handleCrop_def cropperRef_current_def
      editor_rendered_def cropper_src_def
      rotateSelectedPage_def setSelectedPage_def three_pages_eq sample_collab_def trunc_rem_def)

section \<open>Loading\<close>

lemma render_loop_result:
  "render_loop pdf i n images = Some out \<Longrightarrow>
   out = images @ map (\<lambda>j. JVal (the (pdf j))) [i..<Suc n]"
proof (induction pdf i n images rule: render_loop.induct)
  case (1 pdf i pageCount images)
  show ?case
  proof (cases "i \<le> pageCount")
    case True
    with "1.prems" obtain url where u: "pdf i = Some url"
      and r: "render_loop pdf (Suc i) pageCount (images @ [JVal url]) = Some out"
      by (subst (asm) render_loop.simps) (auto split: option.splits)
    from "1.IH" [OF True u r] have "out = (images @ [JVal url]) @ map (\<lambda>j. JVal (the (pdf j))) [Suc i..<Suc pageCount]" .
    moreover have "[i..<Suc pageCount] = i # [Suc i..<Suc pageCount]"
      using True by (simp add: upt_conv_Cons)
    ultimately show ?thesis using u by simp
  next
    case False
    with "1.prems" show ?thesis by (subst (asm) render_loop.simps) simp
  qed
qed

lemma handleFileUpload_success:
  assumes "pdflib_load env arrayBuffer = Some (PDFDocument (Some n))"
    and "handleFileUpload env s (Some arrayBuffer) = (s', [])"
  shows "pdfDoc s' = Some (PDFDocument (Some n)) \<and> pages s' = map JVal [0..<n]
       \<and> rotationAngles s' = replicate n (JVal (Fin 0))
       \<and> croppedImages s' = replicate n JNull
       \<and> length (pageImages s') = n
       \<and> selectedPage s' = selectedPage s \<and> zoomLevel s' = zoomLevel s"
proof -
  let ?t = "s\<lparr>pdfDoc := Some (PDFDocument (Some n)), pages := map JVal [0..<n],
               rotationAngles := replicate n (JVal (Fin 0)),
               croppedImages := replicate n JNull\<rparr>"
  from assms have r: "renderPdfPages env ?t arrayBuffer n = (s', [])"
    by (simp add: handleFileUpload_def)
  then obtain pdf images where "render_loop pdf 1 n [] = Some images"
    and s': "s' = ?t\<lparr>pageImages := images\<rparr>"
    by (auto simp: renderPdfPages_def split: option.splits)
  then have "length images = n" by (auto dest!: render_loop_result)
  with s' show ?thesis by simp
qed

lemma page_count_failure:
  assumes "pdflib_load env arrayBuffer = Some doc" and "getPageCount doc = None"
  shows "handleFileUpload env s (Some arrayBuffer) = (s\<lparr>pdfDoc := Some doc\<rparr>, [Error_loading_PDF])"
  using assms by (simp add: handleFileUpload_def)

text \<open>
  C3 (as amended). For every session state and every file that the parse library
  rejects (\<^verbatim>\<open>PDFDocument.load\<close> fails), \<open>handleFileUpload\<close> logs the load error and
  returns the state exactly as it was: document, Page List, rasters, selection, angles,
  crop overrides and zoom.
\<close>

theorem load_failure_changes_nothing:
  assumes "pdflib_load env arrayBuffer = None"
  shows "handleFileUpload env s (Some arrayBuffer) = (s, [Error_loading_PDF])"
  using assms by (simp add: handleFileUpload_def)

theorem load_failure_changes_nothing_witness:
  "pdflib_load sample_collab [] = None
   \<and> handleFileUpload sample_collab page2_edited (Some []) = (page2_edited, [Error_loading_PDF])"
proof -
  have h: "pdflib_load sample_collab [] = None" by (simp add: sample_collab_def)
  from load_failure_changes_nothing [OF h] h show ?thesis by simp
qed

text \<open>
  C3 as stated covers every file whose parsing fails. A file that pdf-lib loads (two
  pages) and pdf.js cannot parse fails in \<open>renderPdfPages\<close>, after the setters of
  lines 24-28 have run: the document, the Page List, the angles and the crop overrides
  of the edited three-page session are replaced, and only the rasters stay.
\<close>

theorem render_failure_counterexample:
  "pdfjs_getDocument sample_collab [2, 0] = None
   \<and> handleFileUpload sample_collab page2_edited (Some [2, 0])
       = (\<lparr>pdfDoc = Some (PDFDocument (Some 2)), pages = [JVal 0, JVal 1],
           pageImages = [JVal ''p'', JVal ''pp'', JVal ''cppp''],
           selectedPage = JVal 2, rotationAngles = [JVal (Fin 0), JVal (Fin 0)],
           croppedImages = [JNull, JNull], zoomLevel = 1\<rparr>,
          [Error_rendering_PDF_pages])
   \<and> fst (handleFileUpload sample_collab page2_edited (Some [2, 0])) \<noteq> page2_edited"
  by (simp add: handleFileUpload_def renderPdfPages_def sample_collab_def page2_edited_eq
      upt_rec_numeral numeral_2_eq_2)

text \<open>
  C2. A successful load resets the Page List, the angles and the crop overrides, but
  \<open>handleFileUpload\<close> never calls \<open>setSelectedPage\<close>: loading a two-page file into the
  edited three-page session leaves page 2 selected, an identifier the new document
  does not have.
\<close>

theorem load_keeps_selection:
  "handleFileUpload sample_collab page2_edited (Some [2])
       = (\<lparr>pdfDoc = Some (PDFDocument (Some 2)), pages = [JVal 0, JVal 1],
           pageImages = [JVal ''p'', JVal ''pp''],
           selectedPage = JVal 2, rotationAngles = [JVal (Fin 0), JVal (Fin 0)],
           croppedImages = [JNull, JNull], zoomLevel = 1\<rparr>, [])
   \<and> selectedPage (fst (handleFileUpload sample_collab page2_edited (Some [2]))) \<noteq> JNull"
  by (simp add: handleFileUpload_def renderPdfPages_def sample_collab_def page2_edited_eq
      render_loop.simps upt_rec_numeral numeral_2_eq_2)

section \<open>Cropping\<close>

lemma handleCrop_success:
  assumes "selectedPage s = JVal p" and "getCroppedCanvas env (cropper_src s) = Some url"
  shows "handleCrop env s =
         Inr (s\<lparr>croppedImages := js_set (croppedImages s) (JVal p) (JVal url),
               pageImages := js_set (pageImages s) (JVal p) (JVal url)\<rparr>)"
  using assms
  by (simp add: handleCrop_def cropperRef_current_def editor_rendered_def del: js_set.simps)

lemma handleCrop_failure:
  assumes "getCroppedCanvas env (cropper_src s) = None"
  shows "handleCrop env s = Inl TypeError"
  using assms by (simp add: handleCrop_def cropperRef_current_def)

lemma handleCrop_without_cropper:
  assumes "cropperRef_current s = None"
  shows "handleCrop env s = Inl TypeError"
  using assms by (simp add: handleCrop_def)



text \<open>
  C8. With page \<open>p\<close> selected, the state \<open>s'\<close> after \<open>handleCrop\<close> differs from the state
  before at most in slot \<open>p\<close> of the crop overrides and of the rasters: when the cropper
  yields a URL, both slots hold it, whatever override \<open>p\<close> had before; for every other
  page \<open>q\<close> raster and override read as before, and the rotation angles, the Page List,
  the selection, the document and the zoom are unchanged.
\<close>

theorem handleCrop_frame:
  assumes "selectedPage s = JVal p"
    and "s' = state_after s (handleCrop env s)"
  shows "(\<forall>url. getCroppedCanvas env (cropper_src s) = Some url \<longrightarrow>
            handleCrop env s = Inr s'
            \<and> js_get (croppedImages s') (JVal p) = JVal url
            \<and> js_get (pageImages s') (JVal p) = JVal url)
       \<and> (\<forall>q. q \<noteq> p \<longrightarrow>
            js_get (pageImages s') (JVal q) = js_get (pageImages s) (JVal q)
            \<and> js_get (croppedImages s') (JVal q) = js_get (croppedImages s) (JVal q))
       \<and> rotationAngles s' = rotationAngles s
       \<and> pages s' = pages s
       \<and> selectedPage s' = selectedPage s
       \<and> pdfDoc s' = pdfDoc s
       \<and> zoomLevel s' = zoomLevel s"
proof (cases "getCroppedCanvas env (cropper_src s)")
  case None
  then have "handleCrop env s = Inl TypeError" by (rule handleCrop_failure)
  then have "s' = s" using assms(2) by (simp add: state_after_def)
  with None show ?thesis by simp
next
  case (Some url)
  from handleCrop_success [OF assms(1) Some]
  have r: "handleCrop env s =
         Inr (s\<lparr>croppedImages := js_set (croppedImages s) (JVal p) (JVal url),
               pageImages := js_set (pageImages s) (JVal p) (JVal url)\<rparr>)" .
  then have s': "s' = s\<lparr>croppedImages := js_set (croppedImages s) (JVal p) (JVal url),
               pageImages := js_set (pageImages s) (JVal p) (JVal url)\<rparr>"
    using assms(2) by (simp add: state_after_def)
  show ?thesis
    using Some r unfolding s'
    by (simp add: js_get_set_same js_get_set_other del: js_get.simps js_set.simps)
qed

theorem handleCrop_frame_witness:
  "selectedPage page0_selected = JVal 0
   \<and> getCroppedCanvas sample_collab (cropper_src page0_selected) = Some ''cp''
   \<and> handleCrop sample_collab page0_selected
        = Inr (state_after page0_selected (handleCrop sample_collab page0_selected))
   \<and> js_get (croppedImages (state_after page0_selected (handleCrop sample_collab page0_selected)))
        (JVal 0) = JVal ''cp''
   \<and> js_get (pageImages (state_after page0_selected (handleCrop sample_collab page0_selected)))
        (JVal 0) = JVal ''cp''
   \<and> js_get (pageImages (state_after page0_selected (handleCrop sample_collab page0_selected)))
        (JVal 1) = JVal ''pp''
   \<and> js_get (croppedImages (state_after page0_selected (handleCrop sample_collab page0_selected)))
        (JVal 1) = JNull
   \<and> rotationAngles (state_after page0_selected (handleCrop sample_collab page0_selected))
        = rotationAngles page0_selected
   \<and> pages (state_after page0_selected (handleCrop sample_collab page0_selected))
        = pages page0_selected"
proof -
  have h: "selectedPage page0_selected = JVal 0" by (simp add: page0_selected_eq)
  have c: "getCroppedCanvas sample_collab (cropper_src page0_selected) = Some ''cp''"
    by (simp add: cropper_src_def page0_selected_eq sample_collab_def)
  have o: "js_get (pageImages page0_selected) (JVal 1) = JVal ''pp''"
    "js_get (croppedImages page0_selected) (JVal 1) = JNull"
    by (simp_all add: page0_selected_eq)
  note f = handleCrop_frame [OF h refl, of sample_collab]
  from f c have a: "handleCrop sample_collab page0_selected
        = Inr (state_after page0_selected (handleCrop sample_collab page0_selected))
     \<and> js_get (croppedImages (state_after page0_selected (handleCrop sample_collab page0_selected)))
        (JVal 0) = JVal ''cp''
     \<and> js_get (pageImages (state_after page0_selected (handleCrop sample_collab page0_selected)))
        (JVal 0) = JVal ''cp''"
    by blast
  from f have b: "js_get (pageImages (state_after page0_selected (handleCrop sample_collab page0_selected)))
        (JVal 1) = js_get (pageImages page0_selected) (JVal 1)
     \<and> js_get (croppedImages (state_after page0_selected (handleCrop sample_collab page0_selected)))
        (JVal 1) = js_get (croppedImages page0_selected) (JVal 1)"
    by (metis zero_neq_one)
  from f have d: "rotationAngles (state_after page0_selected (handleCrop sample_collab page0_selected))
        = rotationAngles page0_selected
     \<and> pages (state_after page0_selected (handleCrop sample_collab page0_selected))
        = pages page0_selected"
    by blast
  from h c a b d o show ?thesis by (simp del: js_get.simps)
qed

text \<open>
  C10. After a crop of the selected page \<open>p\<close> that yields \<open>url\<close>, raster and crop
  override of \<open>p\<close> are both \<open>url\<close>, and \<open>url\<close> is the image the cropper shows: the next
  crop (with any crop box, \<open>env2\<close>) is computed from \<open>url\<close>. The state after the crop is
  the same whatever raster \<open>x\<close> and override \<open>y\<close> page \<open>p\<close> held before, provided the
  cropper yields the same \<open>url\<close>: nothing in it refers to the original raster, which only
  a new load can bring back.
\<close>

theorem crop_replaces_source:
  assumes "selectedPage s = JVal p"
    and "getCroppedCanvas env (cropper_src s) = Some url"
    and "s' = state_after s (handleCrop env s)"
  shows "handleCrop env s = Inr s'
       \<and> js_get (pageImages s') (JVal p) = JVal url
       \<and> js_get (croppedImages s') (JVal p) = JVal url
       \<and> cropper_src s' = JVal url
       \<and> handleCrop env2 s'
           = (case getCroppedCanvas env2 (JVal url) of
                None \<Rightarrow> Inl TypeError
              | Some url2 \<Rightarrow>
                  Inr (s'\<lparr>croppedImages := js_set (croppedImages s') (JVal p) (JVal url2),
                          pageImages := js_set (pageImages s') (JVal p) (JVal url2)\<rparr>))
       \<and> (\<forall>x y env3. getCroppedCanvas env3 x = Some url \<longrightarrow>
             handleCrop env3
               (s\<lparr>pageImages := js_set (pageImages s) (JVal p) x,
                  croppedImages := js_set (croppedImages s) (JVal p) y\<rparr>) = Inr s')"
proof -
  from handleCrop_success [OF assms(1,2)]
  have r: "handleCrop env s =
         Inr (s\<lparr>croppedImages := js_set (croppedImages s) (JVal p) (JVal url),
               pageImages := js_set (pageImages s) (JVal p) (JVal url)\<rparr>)" .
  then have s': "s' = s\<lparr>croppedImages := js_set (croppedImages s) (JVal p) (JVal url),
               pageImages := js_set (pageImages s) (JVal p) (JVal url)\<rparr>"
    using assms(3) by (simp add: state_after_def)
  have sel: "selectedPage s' = JVal p" using assms(1) by (simp add: s')
  have img: "js_get (pageImages s') (JVal p) = JVal url"
    by (simp add: s' js_get_set_same del: js_get.simps js_set.simps)
  have ovr: "js_get (croppedImages s') (JVal p) = JVal url"
    by (simp add: s' js_get_set_same del: js_get.simps js_set.simps)
  have src: "cropper_src s' = JVal url"
    using img sel by (simp add: cropper_src_def del: js_get.simps)
  have nxt: "handleCrop env2 s'
           = (case getCroppedCanvas env2 (JVal url) of
                None \<Rightarrow> Inl TypeError
              | Some url2 \<Rightarrow>
                  Inr (s'\<lparr>croppedImages := js_set (croppedImages s') (JVal p) (JVal url2),
                          pageImages := js_set (pageImages s') (JVal p) (JVal url2)\<rparr>))"
    using sel src
    by (cases "getCroppedCanvas env2 (JVal url)")
      (simp_all add: handleCrop_def cropperRef_current_def editor_rendered_def
         del: js_get.simps js_set.simps)
  have ind: "handleCrop env3
               (s\<lparr>pageImages := js_set (pageImages s) (JVal p) x,
                  croppedImages := js_set (croppedImages s) (JVal p) y\<rparr>) = Inr s'"
    if "getCroppedCanvas env3 x = Some url" for x y env3
  proof -
    let ?t = "s\<lparr>pageImages := js_set (pageImages s) (JVal p) x,
                  croppedImages := js_set (croppedImages s) (JVal p) y\<rparr>"
    have t_sel: "selectedPage ?t = JVal p" using assms(1) by simp
    have "cropper_src ?t = x"
      using assms(1) by (simp add: cropper_src_def js_get_set_same del: js_get.simps js_set.simps)
    then have c: "getCroppedCanvas env3 (cropper_src ?t) = Some url" using that by simp
    show ?thesis
      unfolding handleCrop_success [OF t_sel c] s'
      by (simp add: js_set_overwrite del: js_set.simps)
  qed
  from r s' img ovr src nxt ind show ?thesis by blast
qed

theorem crop_replaces_source_witness:
  "selectedPage page0_selected = JVal 0
   \<and> getCroppedCanvas sample_collab (cropper_src page0_selected) = Some ''cp''
   \<and> handleCrop sample_collab page0_selected
        = Inr (state_after page0_selected (handleCrop sample_collab page0_selected))
   \<and> js_get (pageImages (state_after page0_selected (handleCrop sample_collab page0_selected)))
        (JVal 0) = JVal ''cp''
   \<and> js_get (croppedImages (state_after page0_selected (handleCrop sample_collab page0_selected)))
        (JVal 0) = JVal ''cp''
   \<and> cropper_src (state_after page0_selected (handleCrop sample_collab page0_selected))
        = JVal ''cp''
   \<and> getCroppedCanvas (sample_collab\<lparr>getCroppedCanvas := (\<lambda>src. Some ''cp'')\<rparr>) (JVal ''zz'')
        = Some ''cp''
   \<and> handleCrop (sample_collab\<lparr>getCroppedCanvas := (\<lambda>src. Some ''cp'')\<rparr>)
        (page0_selected\<lparr>pageImages := js_set (pageImages page0_selected) (JVal 0) (JVal ''zz''),
                        croppedImages := js_set (croppedImages page0_selected) (JVal 0) JNull\<rparr>)
        = Inr (state_after page0_selected (handleCrop sample_collab page0_selected))"
proof -
  have h: "selectedPage page0_selected = JVal 0" by (simp add: page0_selected_eq)
  have c: "getCroppedCanvas sample_collab (cropper_src page0_selected) = Some ''cp''"
    by (simp add: cropper_src_def page0_selected_eq sample_collab_def)
  have e: "getCroppedCanvas (sample_collab\<lparr>getCroppedCanvas := (\<lambda>src. Some ''cp'')\<rparr>) (JVal ''zz'')
            = Some ''cp''"
    by simp
  note f = crop_replaces_source [OF h c refl]
  from f have a: "handleCrop sample_collab page0_selected
        = Inr (state_after page0_selected (handleCrop sample_collab page0_selected))
   \<and> js_get (pageImages (state_after page0_selected (handleCrop sample_collab page0_selected)))
        (JVal 0) = JVal ''cp''
   \<and> js_get (croppedImages (state_after page0_selected (handleCrop sample_collab page0_selected)))
        (JVal 0) = JVal ''cp''
   \<and> cropper_src (state_after page0_selected (handleCrop sample_collab page0_selected))
        = JVal ''cp''"
    by blast
  from f e have n: "handleCrop (sample_collab\<lparr>getCroppedCanvas := (\<lambda>src. Some ''cp'')\<rparr>)
        (page0_selected\<lparr>pageImages := js_set (pageImages page0_selected) (JVal 0) (JVal ''zz''),
                        croppedImages := js_set (croppedImages page0_selected) (JVal 0) JNull\<rparr>)
        = Inr (state_after page0_selected (handleCrop sample_collab page0_selected))"
    by blast
  from h c a e n show ?thesis by blast
qed

section \<open>Export\<close>

lemma unrendered_eq:
  "unrendered =
     \<lparr>pdfDoc = Some (PDFDocument (Some 2)), pages = [JVal 0, JVal 1], pageImages = [],
      selectedPage = JNull, rotationAngles = [JVal (Fin 0), JVal (Fin 0)],
      croppedImages = [JNull, JNull], zoomLevel = 1\<rparr>"
  by (simp add: unrendered_def handleFileUpload_def sample_collab_def initial_def
      renderPdfPages_def upt_rec_numeral numeral_2_eq_2)

lemma scenario_eq:
  "scenario =
     \<lparr>pdfDoc = Some (PDFDocument (Some 3)), pages = [JVal 2, JVal 0, JVal 1],
      pageImages = [JVal ''cp'', JVal ''pp'', JVal ''ppp''],
      selectedPage = JVal 0, rotationAngles = [JVal (Fin 90), JVal (Fin 0), JVal (Fin 0)],
      croppedImages = [JVal ''cp'', JNull, JNull], zoomLevel = 1\<rparr>"
  by (simp add: scenario_def state_after_def handleCrop_def cropperRef_current_def
      editor_rendered_def cropper_src_def
      rotateSelectedPage_def setSelectedPage_def onDragEnd_def splice_def three_pages_eq
      sample_collab_def trunc_rem_def)

lemma exported_page_embedded:
  "exported_page env s pageIndex = Some pg \<Longrightarrow> embedded env s pageIndex \<noteq> None"
  by (auto simp: exported_page_def split: option.splits)

lemma export_loop_step:
  assumes "i < length (pages s)" and "exported_page env s (pages s ! i) = Some pg"
  shows "export_loop env s i doc = export_loop env s (Suc i) (doc @ [pg])"
  using assms
  by (subst export_loop.simps)
    (auto simp: exported_page_def embedded_def split: option.splits)

lemma export_loop_stop:
  assumes "i < length (pages s)" and "exported_page env s (pages s ! i) = None"
  shows "export_loop env s i doc = None"
  using assms
  by (subst export_loop.simps)
    (auto simp: exported_page_def embedded_def split: option.splits)

lemma export_loop_end:
  assumes "\<not> i < length (pages s)"
  shows "export_loop env s i doc = Some doc"
  using assms by (subst export_loop.simps) simp

lemma export_loop_result:
  "export_loop env s i doc =
     (if \<forall>j. i \<le> j \<and> j < length (pages s) \<longrightarrow> exported_page env s (pages s ! j) \<noteq> None
      then Some (doc @ map (\<lambda>j. the (exported_page env s (pages s ! j))) [i..<length (pages s)])
      else None)"
proof (induction env s i doc rule: export_loop.induct)
  case (1 env s i doc)
  show ?case
  proof (cases "i < length (pages s)")
    case False
    then show ?thesis by (simp add: export_loop_end)
  next
    case True
    show ?thesis
    proof (cases "exported_page env s (pages s ! i)")
      case None
      with True have "\<not> (\<forall>j. i \<le> j \<and> j < length (pages s) \<longrightarrow>
                           exported_page env s (pages s ! j) \<noteq> None)"
        by auto
      then show ?thesis using export_loop_stop [OF True None] by simp
    next
      case (Some pg)
      then obtain b img u where f: "fetch_bytes env (imageUrl s (pages s ! i)) = Some b"
        and g: "embedPng env b = Some img"
        and d: "drawImage env (draw_options s (pages s ! i) img) = Some u"
        and pg: "pg = new_page s (pages s ! i) img"
        by (auto simp: exported_page_def embedded_def split: option.splits)
      have all: "(\<forall>j. i \<le> j \<and> j < length (pages s) \<longrightarrow> exported_page env s (pages s ! j) \<noteq> None)
               = (\<forall>j. Suc i \<le> j \<and> j < length (pages s) \<longrightarrow> exported_page env s (pages s ! j) \<noteq> None)"
        using Some by (metis Suc_leI le_neq_implies_less option.distinct(1) Suc_leD)
      have upt: "[i..<length (pages s)] = i # [Suc i..<length (pages s)]"
        using True by (simp add: upt_conv_Cons)
      show ?thesis
        unfolding export_loop_step [OF True Some] pg "1.IH" [OF True refl f g d] all upt
        using Some pg by simp
    qed
  qed
qed

lemma export_loop_None:
  assumes "i \<le> j" and "j < length (pages s)" and "embedded env s (pages s ! j) = None"
  shows "export_loop env s i doc = None"
proof -
  have "exported_page env s (pages s ! j) = None"
    using assms(3) by (simp add: exported_page_def)
  with assms(1,2) show ?thesis by (subst export_loop_result) auto
qed

lemma export_loop_complete:
  assumes "export_loop env s i doc = Some out"
  shows "\<forall>j. i \<le> j \<and> j < length (pages s) \<longrightarrow> embedded env s (pages s ! j) \<noteq> None"
  using assms export_loop_None by fastforce

lemma export_loop_length:
  assumes "export_loop env s 0 [] = Some doc"
  shows "length doc = length (pages s)"
  using assms by (subst (asm) export_loop_result) (auto split: if_splits)

lemma scenario_loop:
  "export_loop sample_collab scenario 0 [] =
     Some [\<lparr>p_width = 3, p_height = 6,
            p_draws = [\<lparr>d_image = \<lparr>img_width = 3, img_height = 6, img_data = [112, 112, 112]\<rparr>,
                        d_x = 0, d_y = 0, d_width = 3, d_height = 6,
                        d_rotate = Number (Fin 0)\<rparr>]\<rparr>,
           \<lparr>p_width = 2, p_height = 4,
            p_draws = [\<lparr>d_image = \<lparr>img_width = 2, img_height = 4, img_data = [99, 112]\<rparr>,
                        d_x = 0, d_y = 0, d_width = 2, d_height = 4,
                        d_rotate = Number (Fin (pi / 2))\<rparr>]\<rparr>,
           \<lparr>p_width = 2, p_height = 4,
            p_draws = [\<lparr>d_image = \<lparr>img_width = 2, img_height = 4, img_data = [112, 112]\<rparr>,
                        d_x = 0, d_y = 0, d_width = 2, d_height = 4,
                        d_rotate = Number (Fin 0)\<rparr>]\<rparr>]"
  by (simp add: export_loop.simps scenario_eq imageUrl_def js_or_def new_page_def
      draw_options_def sample_collab_def)

lemma scenario_download:
  "handleRearrange sample_collab scenario
     = \<lparr>download = Some (''rearranged.pdf'', [3, 2, 2]), logged = []\<rparr>"
proof -
  have p: "pdfDoc scenario = Some (PDFDocument (Some 3))" by (simp add: scenario_eq)
  have sv: "save sample_collab doc = Some (map p_width doc)" for doc
    by (simp add: sample_collab_def)
  show ?thesis by (simp add: handleRearrange_def p scenario_loop sv)
qed

lemma imageUrl_override:
  "js_get (croppedImages s) pid = JVal u \<Longrightarrow> u \<noteq> [] \<Longrightarrow> imageUrl s pid = JVal u"
  by (simp add: imageUrl_def js_or_def del: js_get.simps)

lemma imageUrl_original:
  "js_get (croppedImages s) pid = JNull \<or> js_get (croppedImages s) pid = JUndefined \<Longrightarrow>
   imageUrl s pid = js_get (pageImages s) pid"
  by (auto simp add: imageUrl_def js_or_def simp del: js_get.simps)

text \<open>
  What the loop builds where the library draws every page: one page per Page List
  position, in order, sized to the embedded image, the image at (0, 0) in that size,
  the rotation option being the plain number angle times \<open>pi / 180\<close>.
\<close>

lemma export_document_when_drawn:
  assumes "pdfDoc s \<noteq> None"
    and "\<forall>i. i < length (pages s) \<longrightarrow> exported_page env s (pages s ! i) \<noteq> None"
  shows "\<exists>doc. export_loop env s 0 [] = Some doc
       \<and> length doc = length (pages s)
       \<and> (\<forall>i. i < length (pages s) \<longrightarrow>
            (\<exists>imageBytes img.
               fetch_bytes env (imageUrl s (pages s ! i)) = Some imageBytes
               \<and> embedPng env imageBytes = Some img
               \<and> doc ! i =
                   \<lparr>p_width = img_width img, p_height = img_height img,
                    p_draws = [\<lparr>d_image = img, d_x = 0, d_y = 0,
                                d_width = img_width img, d_height = img_height img,
                                d_rotate =
                                  Number (js_mul (js_get (rotationAngles s) (pages s ! i))
                                            (pi / 180))\<rparr>]\<rparr>))
       \<and> (\<forall>pid u. js_get (croppedImages s) pid = JVal u \<and> u \<noteq> [] \<longrightarrow>
             imageUrl s pid = JVal u)
       \<and> (\<forall>pid. js_get (croppedImages s) pid = JNull
                 \<or> js_get (croppedImages s) pid = JUndefined \<longrightarrow>
             imageUrl s pid = js_get (pageImages s) pid)
       \<and> (\<forall>pid a. js_get (rotationAngles s) pid = JVal (Fin a) \<longrightarrow>
             js_mul (js_get (rotationAngles s) pid) (pi / 180) = Fin (real_of_int a * pi / 180))
       \<and> handleRearrange env s =
           (case save env doc of
              None \<Rightarrow> \<lparr>download = None, logged = [Error_creating_PDF]\<rparr>
            | Some pdfBytes \<Rightarrow> \<lparr>download = Some (''rearranged.pdf'', pdfBytes), logged = []\<rparr>)"
proof -
  define doc where
    "doc = map (\<lambda>j. the (exported_page env s (pages s ! j))) [0..<length (pages s)]"
  have loop: "export_loop env s 0 [] = Some doc"
    using assms(2) by (subst export_loop_result) (simp add: doc_def)
  have len: "length doc = length (pages s)" by (simp add: doc_def)
  have page: "\<exists>imageBytes img.
               fetch_bytes env (imageUrl s (pages s ! i)) = Some imageBytes
               \<and> embedPng env imageBytes = Some img
               \<and> doc ! i =
                   \<lparr>p_width = img_width img, p_height = img_height img,
                    p_draws = [\<lparr>d_image = img, d_x = 0, d_y = 0,
                                d_width = img_width img, d_height = img_height img,
                                d_rotate =
                                  Number (js_mul (js_get (rotationAngles s) (pages s ! i))
                                            (pi / 180))\<rparr>]\<rparr>"
    if "i < length (pages s)" for i
  proof -
    from assms(2) that obtain pg where e: "exported_page env s (pages s ! i) = Some pg" by auto
    then obtain b img where f: "fetch_bytes env (imageUrl s (pages s ! i)) = Some b"
      and g: "embedPng env b = Some img"
      and pg: "pg = new_page s (pages s ! i) img"
      by (auto simp: exported_page_def embedded_def split: option.splits)
    have "doc ! i = new_page s (pages s ! i) img"
      using that e pg by (simp add: doc_def)
    with f g show ?thesis by (simp add: new_page_def draw_options_def del: js_get.simps)
  qed
  have rot: "js_mul (js_get (rotationAngles s) pid) (pi / 180) = Fin (real_of_int a * pi / 180)"
    if "js_get (rotationAngles s) pid = JVal (Fin a)" for pid a
    using that by (simp del: js_get.simps)
  have out: "handleRearrange env s =
           (case save env doc of
              None \<Rightarrow> \<lparr>download = None, logged = [Error_creating_PDF]\<rparr>
            | Some pdfBytes \<Rightarrow> \<lparr>download = Some (''rearranged.pdf'', pdfBytes), logged = []\<rparr>)"
    using assms(1) loop by (auto simp: handleRearrange_def split: option.splits)
  show ?thesis
    using loop len page imageUrl_override [of s] imageUrl_original [of s] rot out
    by (intro exI [of _ doc]) blast
qed

lemma pdflib_drawImage_rejects_numbers:
  "\<forall>d x. d_rotate d = Number x \<longrightarrow> drawImage pdflib_collab d = None"
  by (simp add: pdflib_collab_def)

text \<open>
  C1. The export does not produce the document. Line 79 gives \<^verbatim>\<open>drawImage\<close> the
  rotation as a plain number; with a library that rejects a plain number there, as
  pdf-lib does, the first \<^verbatim>\<open>drawImage\<close> throws inside the \<^verbatim>\<open>try\<close> of line 62: in
  every state with a loaded document and a non-empty Page List the handler logs the
  export error and offers no download.
\<close>

theorem export_rejected_by_drawImage:
  assumes "pdfDoc s \<noteq> None"
    and "pages s \<noteq> []"
    and "\<forall>d x. d_rotate d = Number x \<longrightarrow> drawImage env d = None"
  shows "handleRearrange env s = \<lparr>download = None, logged = [Error_creating_PDF]\<rparr>"
proof -
  have lt: "0 < length (pages s)" using assms(2) by simp
  have "exported_page env s (pages s ! 0) = None"
  proof (cases "embedded env s (pages s ! 0)")
    case None
    then show ?thesis by (simp add: exported_page_def)
  next
    case (Some img)
    have "d_rotate (draw_options s (pages s ! 0) img)
            = Number (js_mul (js_get (rotationAngles s) (pages s ! 0)) (pi / 180))"
      by (simp add: draw_options_def)
    with assms(3) have "drawImage env (draw_options s (pages s ! 0) img) = None" by blast
    with Some show ?thesis by (simp add: exported_page_def)
  qed
  then have "export_loop env s 0 [] = None" by (rule export_loop_stop [OF lt])
  with assms(1) show ?thesis by (auto simp: handleRearrange_def)
qed

theorem export_rejected_by_drawImage_witness:
  "pdfDoc two_pages \<noteq> None
   \<and> pages two_pages \<noteq> []
   \<and> embedded pdflib_collab two_pages (pages two_pages ! 0)
       = Some \<lparr>img_width = 1, img_height = 2, img_data = [112]\<rparr>
   \<and> d_rotate (draw_options two_pages (pages two_pages ! 0)
                 \<lparr>img_width = 1, img_height = 2, img_data = [112]\<rparr>) = Number (Fin 0)
   \<and> drawImage pdflib_collab
        (draw_options two_pages (pages two_pages ! 0)
           \<lparr>img_width = 1, img_height = 2, img_data = [112]\<rparr>) = None
   \<and> handleRearrange pdflib_collab two_pages
       = \<lparr>download = None, logged = [Error_creating_PDF]\<rparr>"
proof -
  have h1: "pdfDoc two_pages \<noteq> None" by (simp add: two_pages_eq)
  have h2: "pages two_pages \<noteq> []" by (simp add: two_pages_eq)
  note h3 = pdflib_drawImage_rejects_numbers
  have e: "embedded pdflib_collab two_pages (pages two_pages ! 0)
       = Some \<lparr>img_width = 1, img_height = 2, img_data = [112]\<rparr>"
    by (simp add: embedded_def imageUrl_def js_or_def two_pages_eq pdflib_collab_def
        sample_collab_def)
  have r: "d_rotate (draw_options two_pages (pages two_pages ! 0)
                 \<lparr>img_width = 1, img_height = 2, img_data = [112]\<rparr>) = Number (Fin 0)"
    by (simp add: draw_options_def two_pages_eq)
  from h3 r have d: "drawImage pdflib_collab
        (draw_options two_pages (pages two_pages ! 0)
           \<lparr>img_width = 1, img_height = 2, img_data = [112]\<rparr>) = None"
    by blast
  from export_rejected_by_drawImage [OF h1 h2 h3] h1 h2 e r d show ?thesis by blast
qed

text \<open>
  C6. In a state with a loaded document where the raster of some Page List entry
  cannot be read (it is missing, so that \<^verbatim>\<open>undefined\<close> is fetched, or the fetch or the
  embedding throws), the export logs the export error and offers no download. And
  whenever an export (of any state \<open>t\<close>) does offer a download, it is the saved bytes of
  a document with a page for every Page List position, every raster having been read:
  all or nothing.
\<close>

theorem handleRearrange_all_or_nothing:
  assumes "pdfDoc s \<noteq> None"
    and "i < length (pages s)"
    and "embedded env s (pages s ! i) = None"
    and "download (handleRearrange env2 t) = Some (name, pdfBytes)"
  shows "handleRearrange env s = \<lparr>download = None, logged = [Error_creating_PDF]\<rparr>
       \<and> (\<exists>doc. export_loop env2 t 0 [] = Some doc
              \<and> length doc = length (pages t)
              \<and> (\<forall>j. j < length (pages t) \<longrightarrow> embedded env2 t (pages t ! j) \<noteq> None)
              \<and> save env2 doc = Some pdfBytes
              \<and> name = ''rearranged.pdf'')"
proof
  have "export_loop env s 0 [] = None"
    using assms(2,3) by (intro export_loop_None [of 0 i]) simp_all
  with assms(1) show "handleRearrange env s = \<lparr>download = None, logged = [Error_creating_PDF]\<rparr>"
    by (auto simp: handleRearrange_def)
next
  from assms(4) obtain doc where loop: "export_loop env2 t 0 [] = Some doc"
    and sv: "save env2 doc = Some pdfBytes" and nm: "name = ''rearranged.pdf''"
    by (auto simp: handleRearrange_def split: option.splits)
  from export_loop_complete [OF loop]
  have "\<forall>j. j < length (pages t) \<longrightarrow> embedded env2 t (pages t ! j) \<noteq> None" by simp
  with loop sv nm export_loop_length [OF loop]
  show "\<exists>doc. export_loop env2 t 0 [] = Some doc
              \<and> length doc = length (pages t)
              \<and> (\<forall>j. j < length (pages t) \<longrightarrow> embedded env2 t (pages t ! j) \<noteq> None)
              \<and> save env2 doc = Some pdfBytes
              \<and> name = ''rearranged.pdf''"
    by blast
qed

theorem handleRearrange_all_or_nothing_witness:
  "pdfDoc unrendered \<noteq> None
   \<and> (0::nat) < length (pages unrendered)
   \<and> imageUrl unrendered (pages unrendered ! 0) = JUndefined
   \<and> embedded sample_collab unrendered (pages unrendered ! 0) = None
   \<and> download (handleRearrange sample_collab scenario) = Some (''rearranged.pdf'', [3, 2, 2])
   \<and> handleRearrange sample_collab unrendered
       = \<lparr>download = None, logged = [Error_creating_PDF]\<rparr>
   \<and> (\<exists>doc. export_loop sample_collab scenario 0 [] = Some doc
          \<and> length doc = length (pages scenario)
          \<and> save sample_collab doc = Some [3, 2, 2])"
proof -
  have h1: "pdfDoc unrendered \<noteq> None" by (simp add: unrendered_eq)
  have h2: "0 < length (pages unrendered)" by (simp add: unrendered_eq)
  have u: "imageUrl unrendered (pages unrendered ! 0) = JUndefined"
    by (simp add: unrendered_eq imageUrl_def js_or_def)
  have h3: "embedded sample_collab unrendered (pages unrendered ! 0) = None"
    by (simp add: embedded_def u sample_collab_def)
  have h4: "download (handleRearrange sample_collab scenario) = Some (''rearranged.pdf'', [3, 2, 2])"
    by (simp add: scenario_download)
  from handleRearrange_all_or_nothing [OF h1 h2 h3 h4] h1 h2 u h3 h4
  show ?thesis by blast
qed

end
